theory Spec2Isabelle
  imports Main "HOL-Library.Sublist"
begin

section \<open>Strings and the library functions the script relies on\<close>

text \<open>
  A Python \<open>str\<close> is modelled as a \<open>string\<close>; a \<open>char\<close> stands for a code point
  below 256, so \<open>length\<close> is Python's \<open>len\<close> on such strings.  \<open>None\<close> is the
  \<open>None\<close> of \<open>option\<close>; an exception that leaves a function is the \<open>Inl\<close> of
  its result.
\<close>

datatype error =
    ValueError          \<comment> \<open>from \<open>urlsplit\<close>, \<open>time.sleep\<close>, \<open>str\<close> of a huge \<open>int\<close>, the JSON decoder\<close>
  | OverflowError       \<comment> \<open>from \<open>time.sleep\<close>\<close>
  | RequestException    \<comment> \<open>any transport failure raised by \<open>requests.get\<close>\<close>
  | RecursionError      \<comment> \<open>from the JSON decoder on deeply nested text\<close>
  | UnicodeDecodeError  \<comment> \<open>from reading a file whose bytes do not decode\<close>
  | NotADirectoryError  \<comment> \<open>from \<open>open\<close> on a path below a regular file\<close>
  | OSError             \<comment> \<open>any other failure of the operating system\<close>

definition is_asin_char :: "char \<Rightarrow> bool" where
  \<comment> \<open>the character class \<open>[A-Z0-9]\<close>\<close>
  "is_asin_char c =
     (let n = (of_char c :: nat) in (65 \<le> n \<and> n \<le> 90) \<or> (48 \<le> n \<and> n \<le> 57))"

definition at_tail :: "string \<Rightarrow> bool" where
  \<comment> \<open>what \<open>(?:/|\?|$)\<close> accepts at the start of the remaining text: a slash, a question
      mark, the end of the string, or (Python's \<open>$\<close>) a line feed that ends the string\<close>
  "at_tail rest =
     (case rest of
        [] \<Rightarrow> True
      | c # cs \<Rightarrow> c = CHR ''/'' \<or> c = CHR ''?'' \<or> (c = CHR 0x0A \<and> cs = []))"

definition match_code :: "string \<Rightarrow> string \<Rightarrow> string option" where
  \<comment> \<open>\<open>re.match\<close> of \<open>lit([A-Z0-9]{10})(?:/|\?|$)\<close> at the start of \<open>s\<close>: the group\<close>
  "match_code lit s =
     (let code = take 10 (drop (length lit) s) in
      if take (length lit) s = lit \<and> length code = 10 \<and> list_all is_asin_char code
         \<and> at_tail (drop (length lit + 10) s)
      then Some code else None)"

fun re_search :: "(string \<Rightarrow> 'a option) \<Rightarrow> string \<Rightarrow> 'a option" where
  \<comment> \<open>\<open>re.search\<close>: the match at the leftmost position that has one\<close>
  "re_search m [] = m []"
| "re_search m (c # cs) = (case m (c # cs) of Some g \<Rightarrow> Some g | None \<Rightarrow> re_search m cs)"

fun split_on :: "char \<Rightarrow> string \<Rightarrow> string list" where
  \<comment> \<open>\<open>s.split(sep)\<close> for a one-character separator\<close>
  "split_on sep [] = [[]]"
| "split_on sep (c # cs) =
     (if c = sep then [] # split_on sep cs
      else (case split_on sep cs of p # ps \<Rightarrow> (c # p) # ps | [] \<Rightarrow> [[c]]))"

subsection \<open>\<open>urllib.parse.urlparse(url).path\<close>\<close>

text \<open>
  The model follows \<open>urlsplit\<close> and \<open>urlparse\<close> of CPython 3.11: leading C0 controls
  and spaces are stripped, tab, carriage return and line feed are removed, a scheme and a
  network location are split off, the rest is cut at the first \<open>#\<close>, then at the first
  \<open>?\<close>, and for the schemes that take parameters at the first \<open>;\<close> of the last
  segment.  A network location with one square bracket but not the other raises
  \<open>ValueError\<close>, and so does one whose text between the brackets is neither an IPv6
  address (as \<open>ipaddress.ip_address\<close> reads it) nor an \<open>IPvFuture\<close> address.  The
  library also rejects a non-ASCII network location whose NFKC form contains one of
  \<open>/?#@:\<close>; no text of code points below 256 does, so that check has no case here.
\<close>

definition is_c0_or_space :: "char \<Rightarrow> bool" where
  "is_c0_or_space c = ((of_char c :: nat) \<le> 32)"

definition is_unsafe :: "char \<Rightarrow> bool" where
  "is_unsafe c = (c = CHR 0x09 \<or> c = CHR 0x0D \<or> c = CHR 0x0A)"

definition is_ascii_alpha :: "char \<Rightarrow> bool" where
  "is_ascii_alpha c =
     (let n = (of_char c :: nat) in (65 \<le> n \<and> n \<le> 90) \<or> (97 \<le> n \<and> n \<le> 122))"

definition is_scheme_char :: "char \<Rightarrow> bool" where
  "is_scheme_char c =
     (is_ascii_alpha c \<or> (let n = (of_char c :: nat) in 48 \<le> n \<and> n \<le> 57)
      \<or> c = CHR ''+'' \<or> c = CHR ''-'' \<or> c = CHR ''.'')"

definition lower_char :: "char \<Rightarrow> char" where
  \<comment> \<open>\<open>str.lower\<close> on one code point below 256\<close>
  "lower_char c =
     (let n = (of_char c :: nat) in
      if (65 \<le> n \<and> n \<le> 90) \<or> (192 \<le> n \<and> n \<le> 222 \<and> n \<noteq> 215)
      then char_of (n + 32) else c)"

definition lower :: "string \<Rightarrow> string" where
  "lower s = map lower_char s"

definition uses_params :: "string list" where
  "uses_params = ['''', ''ftp'', ''hdl'', ''prospero'', ''http'', ''imap'', ''https'',
     ''shttp'', ''rtsp'', ''rtsps'', ''rtspu'', ''sip'', ''sips'', ''mms'', ''sftp'', ''tel'']"

definition split_scheme :: "string \<Rightarrow> string \<times> string" where
  \<comment> \<open>\<open>i = url.find(':')\<close>; a scheme is split off when \<open>i > 0\<close>, the first character is
      an ASCII letter and \<open>url[:i]\<close> has scheme characters only\<close>
  "split_scheme url =
     (let pre = takeWhile (\<lambda>c. c \<noteq> CHR '':'') url in
      if length pre < length url \<and> pre \<noteq> [] \<and> is_ascii_alpha (hd url)
         \<and> list_all is_scheme_char pre
      then (lower pre, drop (Suc (length pre)) url) else ('''', url))"

definition is_digit_char :: "char \<Rightarrow> bool" where
  "is_digit_char c = (let n = (of_char c :: nat) in 48 \<le> n \<and> n \<le> 57)"

definition is_hex_char :: "char \<Rightarrow> bool" where
  "is_hex_char c =
     (let n = (of_char c :: nat) in
      (48 \<le> n \<and> n \<le> 57) \<or> (65 \<le> n \<and> n \<le> 70) \<or> (97 \<le> n \<and> n \<le> 102))"

definition decimal_value :: "string \<Rightarrow> nat" where
  "decimal_value s = foldl (\<lambda>a c. 10 * a + (of_char c - 48)) 0 s"

definition valid_octet :: "string \<Rightarrow> bool" where
  \<comment> \<open>\<open>IPv4Address._parse_octet\<close> does not raise\<close>
  "valid_octet octet =
     (octet \<noteq> [] \<and> list_all is_digit_char octet \<and> length octet \<le> 3
      \<and> (octet = ''0'' \<or> hd octet \<noteq> CHR ''0'') \<and> decimal_value octet \<le> 255)"

definition valid_ipv4 :: "string \<Rightarrow> bool" where
  \<comment> \<open>\<open>IPv4Address(s)\<close> does not raise\<close>
  "valid_ipv4 s =
     (s \<noteq> [] \<and> length (split_on CHR ''.'' s) = 4 \<and> list_all valid_octet (split_on CHR ''.'' s))"

definition valid_hextet :: "string \<Rightarrow> bool" where
  \<comment> \<open>\<open>IPv6Address._parse_hextet\<close> does not raise\<close>
  "valid_hextet h = (h \<noteq> [] \<and> list_all is_hex_char h \<and> length h \<le> 4)"

definition valid_hextets :: "string list \<Rightarrow> bool" where
  \<comment> \<open>the checks of \<open>IPv6Address._ip_int_from_string\<close> on the parts between the colons:
      at most nine parts, at most one empty part inside (the place of \<open>::\<close>), an empty
      first or last part only next to it, eight parts in all or fewer with \<open>::\<close>\<close>
  "valid_hextets parts =
     (let n = length parts in
      if 9 < n then False
      else
        (case filter (\<lambda>i. parts ! i = []) [1..<n - 1] of
           [] \<Rightarrow> n = 8 \<and> list_all valid_hextet parts
         | [skip_index] \<Rightarrow>
             (let parts_hi = (if hd parts = [] then skip_index - 1 else skip_index);
                  parts_lo = (if last parts = [] then n - skip_index - 2
                              else n - skip_index - 1)
              in (if hd parts = [] then parts_hi = 0 else True)
                 \<and> (if last parts = [] then parts_lo = 0 else True)
                 \<and> parts_hi + parts_lo \<le> 7
                 \<and> list_all valid_hextet (take parts_hi parts)
                 \<and> list_all valid_hextet (drop (n - parts_lo) parts))
         | _ \<Rightarrow> False))"

definition valid_ipv6 :: "string \<Rightarrow> bool" where
  \<comment> \<open>\<open>IPv6Address(s)\<close> does not raise: an optional scope id after \<open>%\<close>, at least three
      parts, an IPv4 address allowed as the last part (it stands for two more parts, written
      \<open>0\<close> here, their value being of no matter)\<close>
  "valid_ipv6 s =
     (let addr = takeWhile (\<lambda>c. c \<noteq> CHR ''%'') s;
          scope = dropWhile (\<lambda>c. c \<noteq> CHR ''%'') s;
          parts = split_on CHR '':'' addr
      in (scope = [] \<or> (tl scope \<noteq> [] \<and> CHR ''%'' \<notin> set (tl scope)))
         \<and> addr \<noteq> [] \<and> 3 \<le> length parts
         \<and> (if CHR ''.'' \<in> set (last parts)
             then valid_ipv4 (last parts) \<and> valid_hextets (butlast parts @ [''0'', ''0''])
             else valid_hextets parts))"

definition check_bracketed_host :: "string \<Rightarrow> bool" where
  \<comment> \<open>\<open>_check_bracketed_host\<close> does not raise: \<open>v\<close>, hex digits, a dot and more, or an
      IPv6 address\<close>
  "check_bracketed_host hostname =
     (if hostname \<noteq> [] \<and> hd hostname = CHR ''v'' then
        (let rest = dropWhile is_hex_char (tl hostname) in
         takeWhile is_hex_char (tl hostname) \<noteq> [] \<and> take 1 rest = ''.'' \<and> 2 \<le> length rest)
      else valid_ipv6 hostname)"

definition bracketed_host :: "string \<Rightarrow> string" where
  \<comment> \<open>\<open>netloc.partition('[')[2].partition(']')[0]\<close>\<close>
  "bracketed_host netloc =
     takeWhile (\<lambda>c. c \<noteq> CHR '']'') (drop 1 (dropWhile (\<lambda>c. c \<noteq> CHR ''['') netloc))"

definition is_netloc_delim :: "char \<Rightarrow> bool" where
  "is_netloc_delim c = (c = CHR ''/'' \<or> c = CHR ''?'' \<or> c = CHR ''#'')"

definition split_netloc :: "string \<Rightarrow> error + string" where
  \<comment> \<open>the text after the network location, when the text starts with \<open>//\<close>\<close>
  "split_netloc url =
     (if take 2 url = ''//'' then
        (let netloc = takeWhile (\<lambda>c. \<not> is_netloc_delim c) (drop 2 url) in
         if (CHR ''['' \<in> set netloc) \<noteq> (CHR '']'' \<in> set netloc) then Inl ValueError
         else if CHR ''['' \<in> set netloc \<and> CHR '']'' \<in> set netloc
                 \<and> \<not> check_bracketed_host (bracketed_host netloc) then Inl ValueError
         else Inr (dropWhile (\<lambda>c. \<not> is_netloc_delim c) (drop 2 url)))
      else Inr url)"

definition split_params :: "string \<Rightarrow> string" where
  \<comment> \<open>\<open>_splitparams(url)[0]\<close>: cut at the first \<open>;\<close> at or after the last slash\<close>
  "split_params url =
     (let last_seg = rev (takeWhile (\<lambda>c. c \<noteq> CHR ''/'') (rev url)) in
      take (length url - length last_seg) url @ takeWhile (\<lambda>c. c \<noteq> CHR '';'') last_seg)"

definition urlparse_path :: "string \<Rightarrow> error + string" where
  "urlparse_path url0 =
     (let url = filter (\<lambda>c. \<not> is_unsafe c) (dropWhile is_c0_or_space url0);
          (scheme, url1) = split_scheme url
      in case split_netloc url1 of
           Inl e \<Rightarrow> Inl e
         | Inr url2 \<Rightarrow>
             (let url3 = takeWhile (\<lambda>c. c \<noteq> CHR ''#'') url2;
                  url4 = takeWhile (\<lambda>c. c \<noteq> CHR ''?'') url3
              in Inr (if scheme \<in> set uses_params \<and> CHR '';'' \<in> set url4
                      then split_params url4 else url4)))"

section \<open>Identifier extractor\<close>

fun scan_dp :: "string list \<Rightarrow> string option" where
  \<comment> \<open>the \<open>for i, part in enumerate(path_parts)\<close> loop\<close>
  "scan_dp (part # nxt # rest) =
     (if part = ''dp'' \<and> length nxt = 10 then Some nxt else scan_dp (nxt # rest))"
| "scan_dp _ = None"

definition extract_asin :: "string \<Rightarrow> error + string option" where
  "extract_asin url =
     (case re_search (match_code ''/dp/'') url of
        Some asin \<Rightarrow> Inr (Some asin)
      | None \<Rightarrow>
          (case urlparse_path url of
             Inl e \<Rightarrow> Inl e
           | Inr path \<Rightarrow>
               (case scan_dp (split_on CHR ''/'' path) of
                  Some part \<Rightarrow> Inr (Some part)
                | None \<Rightarrow> Inr (re_search (match_code ''/'') url))))"

section \<open>Link builder\<close>

definition py_str :: "string option \<Rightarrow> string" where
  \<comment> \<open>how an f-string renders an \<open>Optional[str]\<close>\<close>
  "py_str x = (case x of None \<Rightarrow> ''None'' | Some s \<Rightarrow> s)"

definition truthy :: "string option \<Rightarrow> bool" where
  \<comment> \<open>Python's truth value of an \<open>Optional[str]\<close>: neither \<open>None\<close> nor empty\<close>
  "truthy x = (case x of None \<Rightarrow> False | Some s \<Rightarrow> s \<noteq> [])"

definition associate_tag :: "(string \<rightharpoonup> string) \<Rightarrow> string option \<Rightarrow> string" where
  \<comment> \<open>the value of \<open>associate_id\<close> after the \<open>if associate_id is None\<close> statement\<close>
  "associate_tag env associate_id =
     (case associate_id of
        None \<Rightarrow> (case env ''AMAZON_ASSOCIATE_ID'' of None \<Rightarrow> ''yourtrackingid'' | Some v \<Rightarrow> v)
      | Some t \<Rightarrow> t)"

definition create_associate_url ::
  "(string \<rightharpoonup> string) \<Rightarrow> string option \<Rightarrow> string option \<Rightarrow> string" where
  "create_associate_url env asin associate_id =
     ''https://www.amazon.com/dp/'' @ py_str asin @ ''/ref=nosim?tag=''
       @ associate_tag env associate_id"

section \<open>The outside world\<close>

text \<open>
  Everything the script does to its surroundings is recorded, in order, in a trace.  What
  the surroundings answer is given by a \<open>world\<close>: each answer may depend on all that
  happened before, the trace so far.  A page is reduced to what the two \<open>soup.find\<close>
  calls see in it.
\<close>

datatype event =
    Print string
  | HttpGet string                   \<comment> \<open>\<open>requests.get(url, headers=headers)\<close>\<close>
  | HttpPost string string string    \<comment> \<open>\<open>requests.post(url, json=...)\<close>: url, chat id, text\<close>
  | Sleep int                        \<comment> \<open>\<open>time.sleep(seconds)\<close>\<close>

type_synonym trace = "event list"

record page =
  offscreen_text :: "string option"
    \<comment> \<open>text of the first \<open>span\<close> of class \<open>a-offscreen\<close>, if there is one\<close>
  delivery_attr :: "string option option"
    \<comment> \<open>the first \<open>span\<close> with \<open>data-csa-c-content-id="DEXUnifiedCXPDM"\<close>, if there is
        one, as the value of its \<open>data-csa-c-delivery-price\<close> attribute, if it has one\<close>

datatype get_outcome = GetRaises | GetResponse int page

datatype post_outcome = PostRaises string | PostResponse int

datatype file_outcome =
    FileNotFound      \<comment> \<open>\<open>open\<close> raises \<open>FileNotFoundError\<close>\<close>
  | FileRaises error  \<comment> \<open>\<open>open\<close> or reading raises something else\<close>
  | FileText string   \<comment> \<open>the text of the file\<close>

datatype json =
    JNull | JBool bool | JNumber int | JString string
  | JArray "json list" | JObject "(string \<times> json) list"

datatype decode_outcome =
    Decoded json        \<comment> \<open>the value \<open>json.load\<close> returns\<close>
  | JSONDecodeError     \<comment> \<open>the decoder raises \<open>json.JSONDecodeError\<close>\<close>
  | DecodeRaises error  \<comment> \<open>the decoder raises something else\<close>

record world =
  environ :: "string \<rightharpoonup> string"
  http_get :: "trace \<Rightarrow> string \<Rightarrow> get_outcome"
  http_post :: "trace \<Rightarrow> string \<Rightarrow> string \<Rightarrow> string \<Rightarrow> post_outcome"
  now :: "trace \<Rightarrow> string"
    \<comment> \<open>\<open>datetime.now().strftime("%Y-%m-%d %H:%M:%S")\<close>\<close>
  read_file :: "trace \<Rightarrow> string \<Rightarrow> file_outcome"
  json_loads :: "string \<Rightarrow> decode_outcome"
    \<comment> \<open>the JSON decoder\<close>
  sleep_rejected :: "trace \<Rightarrow> int \<Rightarrow> bool"
    \<comment> \<open>the operating system refuses to sleep that many seconds (a deadline too far away)\<close>

fun str_nat :: "nat \<Rightarrow> string" where
  "str_nat n =
     (if n < 10 then [char_of (48 + n)] else str_nat (n div 10) @ [char_of (48 + n mod 10)])"

declare str_nat.simps [simp del]

definition str_int :: "int \<Rightarrow> string" where
  "str_int i = (if i < 0 then CHR ''-'' # str_nat (nat (- i)) else str_nat (nat i))"

definition format_int :: "int \<Rightarrow> error + string" where
  \<comment> \<open>an \<open>int\<close> in an f-string: more than 4300 digits raise \<open>ValueError\<close>\<close>
  "format_int i = (if 10 ^ 4300 \<le> \<bar>i\<bar> then Inl ValueError else Inr (str_int i))"

definition time_sleep :: "world \<Rightarrow> int \<Rightarrow> trace \<Rightarrow> (error + unit) \<times> trace" where
  \<comment> \<open>\<open>time.sleep(secs)\<close> for an \<open>int\<close>: the nanoseconds must fit 64 bits, the length
      must not be negative, and the operating system must accept it\<close>
  "time_sleep w secs tr =
     (if secs * 1000000000 < - 9223372036854775808 \<or> 9223372036854775807 < secs * 1000000000
      then (Inl OverflowError, tr)
      else if secs < 0 then (Inl ValueError, tr)
      else if sleep_rejected w tr secs then (Inl OSError, tr)
      else (Inr (), tr @ [Sleep secs]))"

section \<open>Price fetcher\<close>

definition get_amazon_price ::
  "world \<Rightarrow> string \<Rightarrow> trace \<Rightarrow> (error + string option \<times> string option) \<times> trace" where
  "get_amazon_price w url tr =
     (let tr1 = tr @ [HttpGet url] in
      case http_get w tr url of
        GetRaises \<Rightarrow> (Inl RequestException, tr1)
      | GetResponse status_code soup \<Rightarrow>
          if status_code \<noteq> 200 then
            (Inr (None, None),
             tr1 @ [Print (''Error: Unable to access the URL. Status code: ''
                           @ str_int status_code)])
          else
            (case offscreen_text soup of
               None \<Rightarrow>
                 (Inr (None, None),
                  tr1 @ [Print ''Error: Could not find price elements on the page''])
             | Some item_price \<Rightarrow>
                 (Inr (Some item_price,
                       (case delivery_attr soup of None \<Rightarrow> None | Some a \<Rightarrow> a)),
                  tr1)))"

section \<open>Notifier\<close>

definition requests_post ::
  "world \<Rightarrow> string \<Rightarrow> string \<Rightarrow> string \<Rightarrow> trace \<Rightarrow> (string + int) \<times> trace" where
  \<comment> \<open>\<open>requests.post(url, json=data).status_code\<close>; \<open>Inl\<close> is an exception, with its text\<close>
  "requests_post w url chat_id text tr =
     (case http_post w tr url chat_id text of
        PostRaises e \<Rightarrow> (Inl e, tr @ [HttpPost url chat_id text])
      | PostResponse status_code \<Rightarrow> (Inr status_code, tr @ [HttpPost url chat_id text]))"

definition send_telegram_message ::
  "world \<Rightarrow> string \<Rightarrow> string option \<Rightarrow> string option \<Rightarrow> trace \<Rightarrow> (error + bool) \<times> trace" where
  "send_telegram_message w message bot_token0 chat_id0 tr =
     (let bot_token = (case bot_token0 of None \<Rightarrow> environ w ''TELEGRAM_BOT_TOKEN''
                                        | Some t \<Rightarrow> Some t);
          chat_id = (case chat_id0 of None \<Rightarrow> environ w ''TELEGRAM_CHAT_ID''
                                    | Some c \<Rightarrow> Some c)
      in if \<not> truthy bot_token \<or> \<not> truthy chat_id then
           (Inr False,
            tr @ [Print ''Error: Telegram credentials not found in environment variables''])
         else
           (let url = ''https://api.telegram.org/bot'' @ py_str bot_token @ ''/sendMessage'' in
            case requests_post w url (py_str chat_id) message tr of
              (Inr status_code, tr1) \<Rightarrow> (Inr (status_code = 200), tr1)
            | (Inl e, tr1) \<Rightarrow>
                (Inr False, tr1 @ [Print (''Error sending Telegram message: '' @ e)])))"

section \<open>Product store\<close>

definition load_products :: "world \<Rightarrow> string \<Rightarrow> trace \<Rightarrow> (error + json) \<times> trace" where
  "load_products w filename tr =
     (case read_file w tr filename of
        FileNotFound \<Rightarrow> (Inr (JArray []), tr @ [Print (''Error: '' @ filename @ '' not found'')])
      | FileRaises e \<Rightarrow> (Inl e, tr)
      | FileText text \<Rightarrow>
          (case json_loads w text of
             Decoded v \<Rightarrow> (Inr v, tr)
           | JSONDecodeError \<Rightarrow>
               (Inr (JArray []),
                tr @ [Print (''Error: '' @ filename @ '' is not valid JSON'')])
           | DecodeRaises e \<Rightarrow> (Inl e, tr)))"

section \<open>Monitor loop\<close>

text \<open>
  A product is a dictionary with string values.  The notification text starts with four
  non-ASCII characters, kept here as the bytes they have in the source file.
\<close>

type_synonym product = "string \<rightharpoonup> string"

definition banner :: string where
  "banner = [CHR 0xC3, CHR 0xB0, CHR 0xC5, CHR 0xB8, CHR 0xC5, CHR 0xBD, CHR 0xE2, CHR 0x80,
     CHR 0xB0]"

definition process_product ::
  "world \<Rightarrow> string option \<Rightarrow> string option \<Rightarrow> string option \<Rightarrow> product \<Rightarrow> trace
     \<Rightarrow> (error + unit) \<times> trace" where
  \<comment> \<open>the body of \<open>for product in products\<close>\<close>
  "process_product w associate_id bot_token chat_id product tr =
     (let url = product ''url'';
          name = (case product ''name'' of None \<Rightarrow> ''Unknown Product'' | Some n \<Rightarrow> n)
      in if \<not> truthy url then (Inr (), tr)
         else
           (case extract_asin (py_str url) of
              Inl e \<Rightarrow> (Inl e, tr)
            | Inr asin \<Rightarrow>
                if \<not> truthy asin then
                  (Inr (), tr @ [Print (''Error: Could not extract ASIN from URL for '' @ name)])
                else
                  (let associate_url = create_associate_url (environ w) asin associate_id in
                   case get_amazon_price w associate_url tr of
                     (Inl e, tr1) \<Rightarrow> (Inl e, tr1)
                   | (Inr (item_price, delivery_price), tr1) \<Rightarrow>
                       if \<not> truthy item_price then
                         (Inr (), tr1 @ [Print (''Error: Could not get price for '' @ name)])
                       else if truthy delivery_price
                               \<and> lower (py_str delivery_price) = ''free'' then
                         (let message =
                                banner @ '' Free shipping available for '' @ name @ ''!''
                                @ [CHR 0x0A] @ ''Price: '' @ py_str item_price
                                @ [CHR 0x0A] @ ''Link: '' @ associate_url
                          in case send_telegram_message w message bot_token chat_id tr1 of
                               (Inl e, tr2) \<Rightarrow> (Inl e, tr2)
                             | (Inr sent, tr2) \<Rightarrow>
                                 (Inr (),
                                  tr2 @ [Print (if sent then ''Notification sent for '' @ name
                                         else ''Failed to send notification for '' @ name)]))
                       else
                         (Inr (),
                          tr1 @ [Print (name @ '': '' @ py_str item_price @ '' (Shipping: ''
                                   @ (if truthy delivery_price then py_str delivery_price
                                      else ''Unknown'') @ '')'')]))))"

fun for_products ::
  "(product \<Rightarrow> trace \<Rightarrow> (error + unit) \<times> trace) \<Rightarrow> product list \<Rightarrow> trace
     \<Rightarrow> (error + unit) \<times> trace" where
  "for_products body [] tr = (Inr (), tr)"
| "for_products body (p # ps) tr =
     (case body p tr of
        (Inl e, tr1) \<Rightarrow> (Inl e, tr1)
      | (Inr u, tr1) \<Rightarrow> for_products body ps tr1)"

definition monitor_cycle ::
  "world \<Rightarrow> product list \<Rightarrow> string option \<Rightarrow> string option \<Rightarrow> string option \<Rightarrow> int \<Rightarrow> trace
     \<Rightarrow> (error + unit) \<times> trace" where
  \<comment> \<open>one pass through the body of \<open>while True\<close>\<close>
  "monitor_cycle w products associate_id bot_token chat_id sleep_minutes tr =
     (let tr0 = tr @ [Print ([CHR 0x0A] @ ''Checking prices at '' @ now w tr)] in
      case for_products (process_product w associate_id bot_token chat_id) products tr0 of
        (Inl e, tr1) \<Rightarrow> (Inl e, tr1)
      | (Inr u, tr1) \<Rightarrow>
          (case format_int sleep_minutes of
             Inl e \<Rightarrow> (Inl e, tr1)
           | Inr minutes \<Rightarrow>
               time_sleep w (sleep_minutes * 60)
                 (tr1 @ [Print ([CHR 0x0A] @ ''Sleeping for '' @ minutes @ '' minutes...'')])))"

fun monitor_products ::
  "nat \<Rightarrow> world \<Rightarrow> product list \<Rightarrow> string option \<Rightarrow> string option \<Rightarrow> string option \<Rightarrow> int
     \<Rightarrow> trace \<Rightarrow> error option \<times> trace" where
  \<comment> \<open>\<open>while True\<close> never ends by itself: the first argument is how many passes are
      watched.  \<open>Some e\<close> is the exception that ended the loop, \<open>None\<close> says that the
      loop is still running after that many passes.\<close>
  "monitor_products 0 w products associate_id bot_token chat_id sleep_minutes tr = (None, tr)"
| "monitor_products (Suc n) w products associate_id bot_token chat_id sleep_minutes tr =
     (case monitor_cycle w products associate_id bot_token chat_id sleep_minutes tr of
        (Inl e, tr1) \<Rightarrow> (Some e, tr1)
      | (Inr u, tr1) \<Rightarrow>
          monitor_products n w products associate_id bot_token chat_id sleep_minutes tr1)"

section \<open>Single-URL check\<close>

definition check_price ::
  "world \<Rightarrow> string \<Rightarrow> string option \<Rightarrow> trace \<Rightarrow> (error + unit) \<times> trace" where
  "check_price w url associate_id tr =
     (case extract_asin url of
        Inl e \<Rightarrow> (Inl e, tr)
      | Inr asin \<Rightarrow>
          (let (asin_url, tr1) =
                 (if \<not> truthy asin then
                    (url,
                     tr @ [Print ''Error: Could not extract ASIN from URL. Using original URL.''])
                  else
                    (''https://www.amazon.com/dp/'' @ py_str asin,
                     tr @ [Print (''Cleaned URL: '' @ ''https://www.amazon.com/dp/''
                                  @ py_str asin)]));
               associate_url = create_associate_url (environ w) asin associate_id;
               tr2 = tr1 @ [Print (''Associate URL: '' @ associate_url),
                            Print (''Processing URL: '' @ associate_url)]
           in case get_amazon_price w associate_url tr2 of
                (Inl e, tr3) \<Rightarrow> (Inl e, tr3)
              | (Inr (item_price, delivery_price), tr3) \<Rightarrow>
                  if truthy item_price then
                    (Inr (), tr3 @ [Print (''Item price: '' @ py_str item_price),
                                    Print (''Delivery price: '' @ py_str delivery_price)])
                  else (Inr (), tr3 @ [Print ''Failed to retrieve price information''])))"

section \<open>Observations on traces\<close>

definition requests_of :: "trace \<Rightarrow> event list" where
  \<comment> \<open>the outbound network requests of a trace, in order\<close>
  "requests_of tr =
     filter (\<lambda>e. case e of HttpGet u \<Rightarrow> True | HttpPost u c t \<Rightarrow> True | _ \<Rightarrow> False) tr"



section \<open>What the claims speak of\<close>

definition dp_code_at :: "string \<Rightarrow> nat \<Rightarrow> bool" where
  \<comment> \<open>at position \<open>i\<close> of the URL stands \<open>/dp/\<close>, then ten characters of \<open>[A-Z0-9]\<close>,
      then a slash, a question mark or the end of the URL\<close>
  "dp_code_at url i =
     (let s = drop i url; code = take 10 (drop 4 s); rest = drop 14 s in
      take 4 s = ''/dp/'' \<and> length code = 10 \<and> list_all is_asin_char code
      \<and> (rest = [] \<or> hd rest = CHR ''/'' \<or> hd rest = CHR ''?''))"

definition dp_match_at :: "string \<Rightarrow> nat \<Rightarrow> bool" where
  \<comment> \<open>as \<open>dp_code_at\<close>, a line feed that ends the URL counting as a bound too\<close>
  "dp_match_at url i =
     (let s = drop i url; code = take 10 (drop 4 s); rest = drop 14 s in
      take 4 s = ''/dp/'' \<and> length code = 10 \<and> list_all is_asin_char code
      \<and> (rest = [] \<or> hd rest = CHR ''/'' \<or> hd rest = CHR ''?'' \<or> rest = [CHR 0x0A]))"

definition code10_at :: "string \<Rightarrow> nat \<Rightarrow> bool" where
  \<comment> \<open>at position \<open>i\<close> of the URL stands a slash, then ten characters of \<open>[A-Z0-9]\<close>, then
      a slash, a question mark, the end of the URL or a line feed that ends it\<close>
  "code10_at url i =
     (let s = drop i url; code = take 10 (drop 1 s); rest = drop 11 s in
      take 1 s = ''/'' \<and> length code = 10 \<and> list_all is_asin_char code
      \<and> (rest = [] \<or> hd rest = CHR ''/'' \<or> hd rest = CHR ''?'' \<or> rest = [CHR 0x0A]))"

definition path_segments :: "string \<Rightarrow> string list" where
  \<comment> \<open>the segments of the path of a URL, as \<open>urlparse\<close> gives it; none when it raises\<close>
  "path_segments url =
     (case urlparse_path url of Inl e \<Rightarrow> [] | Inr path \<Rightarrow> split_on CHR ''/'' path)"

definition first_dp_pair :: "string list \<Rightarrow> nat \<Rightarrow> bool" where
  \<comment> \<open>segment \<open>k\<close> is \<open>dp\<close>, the next has exactly ten characters, and this is so for no
      earlier segment\<close>
  "first_dp_pair parts k =
     (Suc k < length parts \<and> parts ! k = ''dp'' \<and> length (parts ! Suc k) = 10
      \<and> list_all (\<lambda>j. \<not> (parts ! j = ''dp'' \<and> length (parts ! Suc j) = 10)) [0..<k])"

fun count_sub :: "string \<Rightarrow> string \<Rightarrow> nat" where
  \<comment> \<open>at how many positions of a text \<open>sub\<close> occurs\<close>
  "count_sub sub [] = (if sub = [] then 1 else 0)"
| "count_sub sub (c # cs) = (if prefix sub (c # cs) then 1 else 0) + count_sub sub cs"






section \<open>Sample worlds\<close>

definition sample_page :: "string option \<Rightarrow> string option option \<Rightarrow> page" where
  "sample_page price delivery = \<lparr>offscreen_text = price, delivery_attr = delivery\<rparr>"

definition sample_world ::
  "(string \<rightharpoonup> string) \<Rightarrow> get_outcome \<Rightarrow> post_outcome \<Rightarrow> file_outcome \<Rightarrow> world" where
  \<comment> \<open>a world that always gives the same answers; its decoder accepts \<open>[]\<close> only, and
      every sleep is accepted\<close>
  "sample_world env g p f =
     \<lparr>environ = env, http_get = (\<lambda>tr u. g), http_post = (\<lambda>tr u c t. p),
      now = (\<lambda>tr. ''2024-01-01 00:00:00''), read_file = (\<lambda>tr n. f),
      json_loads = (\<lambda>s. if s = ''[]'' then Decoded (JArray []) else JSONDecodeError),
      sleep_rejected = (\<lambda>tr secs. False)\<rparr>"


definition nesting_world :: world where
  \<comment> \<open>the product file holds 2000 opening brackets; on a thousand or more of them the
      decoder exceeds the recursion limit of the interpreter\<close>
  "nesting_world =
     (sample_world Map.empty GetRaises (PostResponse 200) (FileText (replicate 2000 CHR ''['')))
       \<lparr>json_loads :=
          (\<lambda>s. if 1000 \<le> length (takeWhile (\<lambda>c. c = CHR ''['') s)
               then DecodeRaises RecursionError
               else if s = ''[]'' then Decoded (JArray []) else JSONDecodeError)\<rparr>"

definition mixed_world :: world where
  \<comment> \<open>the page of \<open>B08N5WRWNW\<close> shows a price and free delivery; every other page is
      answered with status 503\<close>
  "mixed_world =
     (sample_world Map.empty GetRaises (PostResponse 200) FileNotFound)
       \<lparr>http_get :=
          (\<lambda>tr u. if u = ''https://www.amazon.com/dp/B08N5WRWNW/ref=nosim?tag=yourtrackingid''
                  then GetResponse 200 (sample_page (Some ''$19.99'') (Some (Some ''FREE'')))
                  else GetResponse 503 (sample_page None None))\<rparr>"





section \<open>Price fetcher: failures give two absent fields\<close>

text \<open>
  Claim C4.  When a response arrives and its status is not 200 (so in particular when it
  is no success status at all), or the page has no \<open>span\<close> of class \<open>a-offscreen\<close>,
  \<open>get_amazon_price\<close> returns \<open>(None, None)\<close> and raises nothing.
\<close>

theorem fetch_failure_absent:
  assumes "http_get w tr url = GetResponse status_code soup"
    and "status_code \<noteq> 200 \<or> offscreen_text soup = None"
  shows "fst (get_amazon_price w url tr) = Inr (None, None)"
  using assms by (auto simp: get_amazon_price_def Let_def)

theorem fetch_failure_absent_witness:
  "http_get (sample_world Map.empty (GetResponse 503 (sample_page (Some ''$5'') None))
       (PostResponse 200) FileNotFound) [] ''u''
     = GetResponse 503 (sample_page (Some ''$5'') None)
   \<and> (503::int) \<noteq> 200
   \<and> fst (get_amazon_price (sample_world Map.empty
         (GetResponse 503 (sample_page (Some ''$5'') None)) (PostResponse 200) FileNotFound)
         ''u'' []) = Inr (None, None)"
  using fetch_failure_absent [of "sample_world Map.empty
      (GetResponse 503 (sample_page (Some ''$5'') None)) (PostResponse 200) FileNotFound"
      "[]" "''u''" 503 "sample_page (Some ''$5'') None"]
  by (simp add: sample_world_def)

section \<open>Notifier\<close>

text \<open>
  Claim C5.  When the bot token or the chat id is neither passed nor set in the
  environment, \<open>send_telegram_message\<close> returns \<open>False\<close> and the trace gains no
  network request.
\<close>

theorem notify_without_credentials:
  assumes "(bot_token = None \<and> environ w ''TELEGRAM_BOT_TOKEN'' = None)
         \<or> (chat_id = None \<and> environ w ''TELEGRAM_CHAT_ID'' = None)"
  shows "fst (send_telegram_message w message bot_token chat_id tr) = Inr False
       \<and> requests_of (snd (send_telegram_message w message bot_token chat_id tr))
           = requests_of tr"
  using assms
  by (auto simp: send_telegram_message_def truthy_def requests_of_def Let_def
           split: option.splits)

theorem notify_without_credentials_witness:
  "environ (sample_world [''TELEGRAM_BOT_TOKEN'' \<mapsto> ''T''] GetRaises (PostResponse 200)
       FileNotFound) ''TELEGRAM_CHAT_ID'' = None
   \<and> fst (send_telegram_message (sample_world [''TELEGRAM_BOT_TOKEN'' \<mapsto> ''T''] GetRaises
         (PostResponse 200) FileNotFound) ''hello'' None None [HttpGet ''u'']) = Inr False
   \<and> requests_of (snd (send_telegram_message (sample_world [''TELEGRAM_BOT_TOKEN'' \<mapsto> ''T'']
         GetRaises (PostResponse 200) FileNotFound) ''hello'' None None [HttpGet ''u'']))
       = requests_of [HttpGet ''u'']"
  using notify_without_credentials [of None "sample_world [''TELEGRAM_BOT_TOKEN'' \<mapsto> ''T'']
      GetRaises (PostResponse 200) FileNotFound" None "''hello''" "[HttpGet ''u'']"]
  by (simp add: sample_world_def)

text \<open>
  Claim C6, as the code has it.  With a non-empty bot token and a non-empty chat id (passed
  or from the environment) \<open>send_telegram_message\<close> makes exactly one request, the
  \<open>POST\<close> to the bot's \<open>sendMessage\<close> address, and returns \<open>True\<close> exactly when
  a response with status 200 comes back; an exception of the request gives \<open>False\<close> and is
  not passed on.  The claim itself speaks of present credentials and of the success range:
  status 204 gives \<open>False\<close>, and an empty token makes no request at all.
\<close>

theorem notify_with_credentials:
  assumes "(case bot_token of None \<Rightarrow> environ w ''TELEGRAM_BOT_TOKEN'' | Some t \<Rightarrow> Some t)
             = Some token"
    and "token \<noteq> []"
    and "(case chat_id of None \<Rightarrow> environ w ''TELEGRAM_CHAT_ID'' | Some c \<Rightarrow> Some c)
             = Some chat"
    and "chat \<noteq> []"
  shows "requests_of (snd (send_telegram_message w message bot_token chat_id tr))
           = requests_of tr
             @ [HttpPost (''https://api.telegram.org/bot'' @ token @ ''/sendMessage'') chat message]
       \<and> fst (send_telegram_message w message bot_token chat_id tr)
           = Inr (http_post w tr (''https://api.telegram.org/bot'' @ token @ ''/sendMessage'')
                    chat message = PostResponse 200)"
  using assms
  by (auto simp: send_telegram_message_def requests_post_def truthy_def py_str_def
                 requests_of_def Let_def split: post_outcome.splits)

theorem notify_with_credentials_witness:
  "environ (sample_world [''TELEGRAM_BOT_TOKEN'' \<mapsto> ''T''] GetRaises (PostRaises ''timeout'')
       FileNotFound) ''TELEGRAM_BOT_TOKEN'' = Some ''T''
   \<and> requests_of (snd (send_telegram_message (sample_world [''TELEGRAM_BOT_TOKEN'' \<mapsto> ''T'']
         GetRaises (PostRaises ''timeout'') FileNotFound) ''hello'' None (Some ''C'') []))
       = [HttpPost ''https://api.telegram.org/botT/sendMessage'' ''C'' ''hello'']
   \<and> fst (send_telegram_message (sample_world [''TELEGRAM_BOT_TOKEN'' \<mapsto> ''T''] GetRaises
         (PostRaises ''timeout'') FileNotFound) ''hello'' None (Some ''C'') []) = Inr False"
  using notify_with_credentials [where bot_token = None and chat_id = "Some ''C''"
      and w = "sample_world [''TELEGRAM_BOT_TOKEN'' \<mapsto> ''T''] GetRaises
                 (PostRaises ''timeout'') FileNotFound"
      and token = "''T''" and chat = "''C''" and message = "''hello''" and tr = "[]"]
  by (simp add: sample_world_def requests_of_def)

text \<open>
  A response with status 204 gives \<open>False\<close>, and an empty bot token makes no request.
\<close>

theorem notify_success_range_counterexample:
  "http_post (sample_world Map.empty GetRaises (PostResponse 204) FileNotFound) []
       ''https://api.telegram.org/botT/sendMessage'' ''C'' ''hello'' = PostResponse 204
   \<and> fst (send_telegram_message (sample_world Map.empty GetRaises (PostResponse 204)
         FileNotFound) ''hello'' (Some ''T'') (Some ''C'') []) = Inr False
   \<and> snd (send_telegram_message (sample_world Map.empty GetRaises (PostResponse 204)
         FileNotFound) ''hello'' (Some '''') (Some ''C'') [])
       = [Print ''Error: Telegram credentials not found in environment variables'']"
  by (simp add: sample_world_def send_telegram_message_def requests_post_def truthy_def py_str_def)

section \<open>Product store\<close>

text \<open>
  Claim C8, as the code has it.  \<open>load_products\<close> returns the empty list, and raises nothing, exactly in the two
  cases it handles: the file does not exist (\<open>FileNotFoundError\<close>), or its text is rejected
  by the decoder with \<open>JSONDecodeError\<close>.  Whatever else opening or reading the file raises,
  and whatever else the decoder raises, is raised by \<open>load_products\<close> and leaves no line on
  the output.
\<close>

theorem load_products_outcomes:
  "(read_file w tr filename = FileNotFound
      \<longrightarrow> load_products w filename tr
            = (Inr (JArray []), tr @ [Print (''Error: '' @ filename @ '' not found'')]))
   \<and> (\<forall>text. read_file w tr filename = FileText text \<and> json_loads w text = JSONDecodeError
      \<longrightarrow> load_products w filename tr
            = (Inr (JArray []), tr @ [Print (''Error: '' @ filename @ '' is not valid JSON'')]))
   \<and> (\<forall>e. read_file w tr filename = FileRaises e
      \<longrightarrow> load_products w filename tr = (Inl e, tr))
   \<and> (\<forall>text e. read_file w tr filename = FileText text \<and> json_loads w text = DecodeRaises e
      \<longrightarrow> load_products w filename tr = (Inl e, tr))"
  by (simp add: load_products_def)

theorem load_products_outcomes_witness:
  "read_file (sample_world Map.empty GetRaises (PostResponse 200) FileNotFound)
       [] ''products.json'' = FileNotFound
   \<and> load_products (sample_world Map.empty GetRaises (PostResponse 200) FileNotFound)
       ''products.json'' [] = (Inr (JArray []), [Print ''Error: products.json not found''])
   \<and> read_file (sample_world Map.empty GetRaises (PostResponse 200) (FileText ''[{''))
       [] ''products.json'' = FileText ''[{''
   \<and> json_loads (sample_world Map.empty GetRaises (PostResponse 200) (FileText ''[{''))
       ''[{'' = JSONDecodeError
   \<and> load_products (sample_world Map.empty GetRaises (PostResponse 200) (FileText ''[{''))
       ''products.json'' []
        = (Inr (JArray []), [Print ''Error: products.json is not valid JSON''])
   \<and> read_file (sample_world Map.empty GetRaises (PostResponse 200)
         (FileRaises UnicodeDecodeError)) [] ''products.json'' = FileRaises UnicodeDecodeError
   \<and> load_products (sample_world Map.empty GetRaises (PostResponse 200)
         (FileRaises UnicodeDecodeError)) ''products.json'' [] = (Inl UnicodeDecodeError, [])
   \<and> read_file nesting_world [] ''products.json'' = FileText (replicate 2000 CHR ''['')
   \<and> json_loads nesting_world (replicate 2000 CHR ''['') = DecodeRaises RecursionError
   \<and> load_products nesting_world ''products.json'' [] = (Inl RecursionError, [])"
  using load_products_outcomes [of "sample_world Map.empty GetRaises (PostResponse 200)
      FileNotFound" "[]" "''products.json''"]
    load_products_outcomes [of "sample_world Map.empty GetRaises (PostResponse 200)
      (FileText ''[{'')" "[]" "''products.json''"]
    load_products_outcomes [of "sample_world Map.empty GetRaises (PostResponse 200)
      (FileRaises UnicodeDecodeError)" "[]" "''products.json''"]
    load_products_outcomes [of nesting_world "[]" "''products.json''"]
  by (simp add: sample_world_def nesting_world_def)

text \<open>
  The claim as the specification words it, that loading a missing or invalid file returns
  the empty list and does not raise, fails on a path that runs through a regular file
  (\<open>NotADirectoryError\<close>) and on a file of 2000 opening brackets (\<open>RecursionError\<close>).
\<close>

theorem load_products_raises_counterexample:
  "fst (load_products (sample_world Map.empty GetRaises (PostResponse 200)
          (FileRaises NotADirectoryError)) ''products.json/x'' []) = Inl NotADirectoryError
   \<and> fst (load_products nesting_world ''products.json'' []) = Inl RecursionError"
  by (simp add: load_products_def sample_world_def nesting_world_def)

section \<open>Monitor loop: products without a URL\<close>

lemma for_products_skip:
  assumes "\<And>t. body p t = (Inr (), t)"
  shows "for_products body (before @ p # after) tr = for_products body (before @ after) tr"
proof (induction before arbitrary: tr)
  case Nil
  show ?case by (simp add: assms)
next
  case (Cons q qs)
  show ?case by (simp add: Cons.IH split: prod.splits sum.splits)
qed

lemma process_product_no_url:
  assumes "product ''url'' = None \<or> product ''url'' = Some []"
  shows "process_product w a b c product tr = (Inr (), tr)"
  using assms by (auto simp: process_product_def truthy_def)

text \<open>
  Claim C10.  A product whose \<open>url\<close> is missing or empty leaves no mark: its pass through
  the loop body returns at once with the trace unchanged (nothing printed, nothing
  requested), and a cycle, or any number of cycles, over a store that contains it is the
  same as over the store without it.
\<close>

theorem skip_product_without_url:
  assumes "product ''url'' = None \<or> product ''url'' = Some []"
  shows "process_product w associate_id bot_token chat_id product tr = (Inr (), tr)
       \<and> monitor_cycle w (before @ product # after) associate_id bot_token chat_id
           sleep_minutes tr
         = monitor_cycle w (before @ after) associate_id bot_token chat_id sleep_minutes tr
       \<and> monitor_products n w (before @ product # after) associate_id bot_token chat_id
           sleep_minutes tr
         = monitor_products n w (before @ after) associate_id bot_token chat_id
             sleep_minutes tr"
proof -
  have skip: "\<And>t. process_product w associate_id bot_token chat_id product t = (Inr (), t)"
    using assms by (rule process_product_no_url)
  have cyc: "\<And>t. monitor_cycle w (before @ product # after) associate_id bot_token chat_id
           sleep_minutes t
         = monitor_cycle w (before @ after) associate_id bot_token chat_id sleep_minutes t"
    unfolding monitor_cycle_def
    by (simp only: for_products_skip [of "process_product w associate_id bot_token chat_id", OF skip])
  have "monitor_products n w (before @ product # after) associate_id bot_token chat_id
           sleep_minutes tr
         = monitor_products n w (before @ after) associate_id bot_token chat_id
             sleep_minutes tr"
    by (induction n arbitrary: tr) (simp_all add: cyc split: prod.splits sum.splits)
  with skip cyc show ?thesis by simp
qed


theorem skip_product_without_url_witness:
  "[''name'' \<mapsto> ''Kettle''] ''url'' = None
   \<and> process_product (sample_world Map.empty GetRaises (PostResponse 200) FileNotFound)
        None None None [''name'' \<mapsto> ''Kettle''] [] = (Inr (), [])
   \<and> monitor_cycle (sample_world Map.empty GetRaises (PostResponse 200) FileNotFound)
        [[''name'' \<mapsto> ''Kettle''], [''url'' \<mapsto> ''https://example.com/'']] None None None 20 []
     = monitor_cycle (sample_world Map.empty GetRaises (PostResponse 200) FileNotFound)
        [[''url'' \<mapsto> ''https://example.com/'']] None None None 20 []
   \<and> monitor_products 2 (sample_world Map.empty GetRaises (PostResponse 200) FileNotFound)
        [[''name'' \<mapsto> ''Kettle''], [''url'' \<mapsto> ''https://example.com/'']] None None None 20 []
     = monitor_products 2 (sample_world Map.empty GetRaises (PostResponse 200) FileNotFound)
        [[''url'' \<mapsto> ''https://example.com/'']] None None None 20 []"
  using skip_product_without_url [where product = "[''name'' \<mapsto> ''Kettle'']"
      and w = "sample_world Map.empty GetRaises (PostResponse 200) FileNotFound"
      and before = "[]" and after = "[[''url'' \<mapsto> ''https://example.com/'']]"
      and associate_id = None and bot_token = None and chat_id = None and sleep_minutes = 20
      and tr = "[]" and n = 2]
  by simp

section \<open>Single-URL check when no identifier is found\<close>

lemma requests_of_append: "requests_of (a @ b) = requests_of a @ requests_of b"
  by (simp add: requests_of_def)

lemma get_amazon_price_requests:
  "requests_of (snd (get_amazon_price w url tr)) = requests_of tr @ [HttpGet url]"
  by (simp add: get_amazon_price_def requests_of_def Let_def
           split: get_outcome.splits option.splits)

lemma check_price_requests:
  assumes "extract_asin url = Inr asin"
  shows "requests_of (snd (check_price w url associate_id tr))
           = requests_of tr @ [HttpGet (create_associate_url (environ w) asin associate_id)]"
proof -
  let ?u = "create_associate_url (environ w) asin associate_id"
  let ?tr1 = "if \<not> truthy asin
              then tr @ [Print ''Error: Could not extract ASIN from URL. Using original URL.'']
              else tr @ [Print (''Cleaned URL: '' @ ''https://www.amazon.com/dp/''
                                @ py_str asin)]"
  let ?tr2 = "?tr1 @ [Print (''Associate URL: '' @ ?u), Print (''Processing URL: '' @ ?u)]"
  obtain r tr3 where g: "get_amazon_price w ?u ?tr2 = (r, tr3)"
    by (cases "get_amazon_price w ?u ?tr2")
  have r2: "requests_of ?tr2 = requests_of tr"
    by (simp add: requests_of_def)
  have "requests_of (snd (get_amazon_price w ?u ?tr2)) = requests_of ?tr2 @ [HttpGet ?u]"
    by (rule get_amazon_price_requests)
  then have "requests_of tr3 = requests_of ?tr2 @ [HttpGet ?u]"
    by (simp only: g snd_conv)
  then have r3: "requests_of tr3 = requests_of tr @ [HttpGet ?u]"
    by (simp only: r2)
  have "requests_of (snd (check_price w url associate_id tr)) = requests_of tr3"
  proof (cases r)
    case (Inl e)
    with g assms show ?thesis
      by (cases "truthy asin") (simp_all add: check_price_def Let_def)
  next
    case (Inr pr)
    obtain item_price delivery_price where pr: "pr = (item_price, delivery_price)"
      by (cases pr)
    from g assms Inr pr show ?thesis
      by (cases "truthy asin") (simp_all add: check_price_def Let_def requests_of_def)
  qed
  with r3 show ?thesis by simp
qed

text \<open>
  Claim C9, as the code has it.  When \<open>extract_asin\<close> returns \<open>None\<close>,
  \<open>check_price\<close> makes exactly one request: it fetches the associate URL built from the
  absent identifier, with the text \<open>None\<close> where the identifier belongs, whatever the
  original URL was.  The original URL is therefore not fetched, unless it is that very
  string: the case shown after the theorem.
\<close>

theorem check_price_without_asin:
  assumes "extract_asin url = Inr None"
  shows "requests_of (snd (check_price w url associate_id tr))
           = requests_of tr
             @ [HttpGet (''https://www.amazon.com/dp/None/ref=nosim?tag=''
                         @ associate_tag (environ w) associate_id)]"
  using check_price_requests [OF assms, of w associate_id tr]
  by (simp add: create_associate_url_def py_str_def)

theorem check_price_without_asin_witness:
  "extract_asin ''https://example.com/'' = Inr None
   \<and> requests_of (snd (check_price
         (sample_world Map.empty (GetResponse 404 (sample_page None None)) (PostResponse 200)
            FileNotFound) ''https://example.com/'' (Some ''mytag-20'') []))
       = [HttpGet ''https://www.amazon.com/dp/None/ref=nosim?tag=mytag-20'']"
proof -
  have e: "extract_asin ''https://example.com/'' = Inr None"
    by code_simp
  show ?thesis
    using check_price_without_asin [OF e, of "sample_world Map.empty
        (GetResponse 404 (sample_page None None)) (PostResponse 200) FileNotFound"
        "Some ''mytag-20''" "[]"]
    by (simp add: e associate_tag_def requests_of_def)
qed

text \<open>
  The one URL for which the request made is the original URL again.
\<close>

theorem check_price_original_url_counterexample:
  "extract_asin ''https://www.amazon.com/dp/None/ref=nosim?tag=yourtrackingid'' = Inr None
   \<and> requests_of (snd (check_price
         (sample_world Map.empty (GetResponse 404 (sample_page None None)) (PostResponse 200)
            FileNotFound)
         ''https://www.amazon.com/dp/None/ref=nosim?tag=yourtrackingid'' None []))
       = [HttpGet ''https://www.amazon.com/dp/None/ref=nosim?tag=yourtrackingid'']"
proof -
  have e: "extract_asin ''https://www.amazon.com/dp/None/ref=nosim?tag=yourtrackingid'' = Inr None"
    by code_simp
  show ?thesis
    using check_price_requests [OF e, of "sample_world Map.empty
        (GetResponse 404 (sample_page None None)) (PostResponse 200) FileNotFound" None "[]"]
    by (simp add: e create_associate_url_def associate_tag_def py_str_def sample_world_def
          requests_of_def)
qed

section \<open>Link builder: occurrences of the identifier and of the tag\<close>

lemma count_sub_skip:
  assumes "\<And>t. suffix t a \<Longrightarrow> t \<noteq> [] \<Longrightarrow> \<not> prefix sub (t @ b)"
  shows "count_sub sub (a @ b) = count_sub sub b"
  using assms
proof (induction a)
  case Nil
  show ?case by simp
next
  case (Cons x xs)
  have "\<not> prefix sub ((x # xs) @ b)"
    by (rule Cons.prems) simp_all
  moreover have "count_sub sub (xs @ b) = count_sub sub b"
  proof (rule Cons.IH)
    fix t assume "suffix t xs" "t \<noteq> []"
    then show "\<not> prefix sub (t @ b)"
      using Cons.prems [of t] by (simp add: suffix_Cons)
  qed
  ultimately show ?case by simp
qed

lemma count_sub_short: "length s < length sub \<Longrightarrow> count_sub sub s = 0"
proof (induction s)
  case Nil
  then show ?case by auto
next
  case (Cons x xs)
  then have "\<not> prefix sub (x # xs)"
    using prefix_length_le by fastforce
  with Cons show ?case by simp
qed

lemma count_sub_self: "sub \<noteq> [] \<Longrightarrow> count_sub sub sub = 1"
  by (cases sub) (simp_all add: count_sub_short)

lemma prefix_head_in:
  assumes "prefix sub (t @ b)" "t \<noteq> []" "sub \<noteq> []"
  shows "hd sub \<in> set t"
  using assms by (cases sub; cases t) auto

lemma fresh_char_no_overlap:
  assumes c: "c \<in> set sub" and fresh: "c \<notin> set t" and t: "t \<noteq> []"
  shows "\<not> prefix sub (t @ sub)"
proof
  assume p: "prefix sub (t @ sub)"
  from c obtain u v where sub: "sub = u @ c # v" and cu: "c \<notin> set u"
    by (meson split_list_first)
  let ?j = "length u"
  have j: "?j < length sub" by (simp add: sub)
  have at: "(t @ sub) ! ?j = sub ! ?j"
    using p j by (metis prefix_def nth_append)
  have subj: "sub ! ?j = c" by (simp add: sub)
  show False
  proof (cases "?j < length t")
    case True
    then have "t ! ?j = c" using at subj by (simp add: nth_append)
    then show False using fresh True nth_mem by metis
  next
    case False
    then have "sub ! (?j - length t) = c" using at subj by (simp add: nth_append)
    moreover have lt: "?j - length t < ?j" using False t by (cases t) auto
    ultimately have "u ! (?j - length t) = c" by (simp add: sub nth_append)
    then show False using cu lt nth_mem by metis
  qed
qed

lemma asin_before_slash:
  assumes "list_all is_asin_char asin" "suffix t as" "t \<noteq> []" "asin = a # as" "\<not> is_asin_char r"
  shows "\<not> prefix asin (t @ r # rest)"
proof
  assume p: "prefix asin (t @ r # rest)"
  have len: "length t < length asin"
    using assms(2,4) suffix_length_le by fastforce
  have "asin ! length t = (t @ r # rest) ! length t"
    using p len by (metis prefix_def nth_append)
  then have "asin ! length t = r" by simp
  moreover have "is_asin_char (asin ! length t)"
    using assms(1) len by (simp add: list_all_length)
  ultimately show False using assms(5) by simp
qed


lemma fixed_text_no_asin_char:
  "\<forall>c \<in> set ''https://www.amazon.com/dp/''. \<not> is_asin_char c"
  "\<forall>c \<in> set ''/ref=nosim?tag=''. \<not> is_asin_char c"
  by (simp_all add: is_asin_char_def)

lemma count_asin_in_url:
  assumes ne: "asin \<noteq> []" and shape: "list_all is_asin_char asin"
    and tag: "count_sub asin tag = 0"
  shows "count_sub asin (''https://www.amazon.com/dp/'' @ asin @ ''/ref=nosim?tag='' @ tag) = 1"
proof -
  obtain a as where asin: "asin = a # as" using ne by (cases asin) auto
  have hd_asin: "is_asin_char (hd asin)" using shape asin by simp
  have no_start: "\<not> prefix asin (t @ b)"
    if "t \<noteq> []" "\<forall>c \<in> set t. \<not> is_asin_char c" for t b
    using prefix_head_in [of asin t b] that ne hd_asin by auto
  have s1: "count_sub asin (''https://www.amazon.com/dp/'' @ (asin @ ''/ref=nosim?tag='' @ tag))
              = count_sub asin (asin @ ''/ref=nosim?tag='' @ tag)"
  proof (rule count_sub_skip)
    fix t :: string assume t: "suffix t ''https://www.amazon.com/dp/''" "t \<noteq> []"
    then have "\<forall>c \<in> set t. \<not> is_asin_char c"
      using fixed_text_no_asin_char(1) set_mono_suffix by blast
    with t(2) show "\<not> prefix asin (t @ asin @ ''/ref=nosim?tag='' @ tag)"
      by (rule no_start)
  qed
  have s2: "count_sub asin (as @ (''/ref=nosim?tag='' @ tag)) = count_sub asin (''/ref=nosim?tag='' @ tag)"
  proof (rule count_sub_skip)
    fix t :: string assume t: "suffix t as" "t \<noteq> []"
    have "\<not> prefix asin (t @ CHR ''/'' # (''ref=nosim?tag='' @ tag))"
      by (rule asin_before_slash [OF shape t asin]) (simp add: is_asin_char_def)
    then show "\<not> prefix asin (t @ ''/ref=nosim?tag='' @ tag)" by simp
  qed
  have s3: "count_sub asin (''/ref=nosim?tag='' @ tag) = count_sub asin tag"
  proof (rule count_sub_skip)
    fix t :: string assume t: "suffix t ''/ref=nosim?tag=''" "t \<noteq> []"
    then have "\<forall>c \<in> set t. \<not> is_asin_char c"
      using fixed_text_no_asin_char(2) set_mono_suffix by blast
    with t(2) show "\<not> prefix asin (t @ tag)"
      by (rule no_start)
  qed
  have "count_sub asin (asin @ ''/ref=nosim?tag='' @ tag)
          = 1 + count_sub asin (as @ (''/ref=nosim?tag='' @ tag))"
    by (simp add: asin)
  with s1 s2 s3 tag show ?thesis by simp
qed

lemma count_tag_in_url:
  assumes c: "c \<in> set tag" and fresh: "c \<notin> set before"
  shows "count_sub tag (before @ tag) = 1"
proof -
  have "count_sub tag (before @ tag) = count_sub tag tag"
  proof (rule count_sub_skip)
    fix t :: string assume t: "suffix t before" "t \<noteq> []"
    then have "c \<notin> set t" using fresh set_mono_suffix by blast
    with c show "\<not> prefix tag (t @ tag)" using t(2) by (rule fresh_char_no_overlap)
  qed
  moreover have "tag \<noteq> []" using c by auto
  ultimately show ?thesis by (simp add: count_sub_self)
qed

text \<open>
  Claim C7, as the code has it.  The link is the fixed address, the identifier, the fixed
  referral text and the tag (the one supplied, else the one of the environment, else
  \<open>yourtrackingid\<close>), each put in once.  A non-empty identifier of capitals and digits
  that does not occur inside the tag occurs exactly once in the link; a tag with a
  character that is neither in the fixed texts nor in the identifier occurs exactly once.
  Without such conditions the count can be higher: the tag \<open>amazon\<close> occurs twice.
\<close>

theorem associate_url_occurrences:
  "create_associate_url env (Some asin) associate_id
     = ''https://www.amazon.com/dp/'' @ asin @ ''/ref=nosim?tag='' @ associate_tag env associate_id
   \<and> (asin \<noteq> [] \<and> list_all is_asin_char asin
        \<and> count_sub asin (associate_tag env associate_id) = 0
      \<longrightarrow> count_sub asin (create_associate_url env (Some asin) associate_id) = 1)
   \<and> ((\<exists>c \<in> set (associate_tag env associate_id).
          c \<notin> set ''https://www.amazon.com/dp/'' \<and> c \<notin> set asin
          \<and> c \<notin> set ''/ref=nosim?tag='')
      \<longrightarrow> count_sub (associate_tag env associate_id)
            (create_associate_url env (Some asin) associate_id) = 1)"
proof -
  let ?tag = "associate_tag env associate_id"
  have url: "create_associate_url env (Some asin) associate_id
     = ''https://www.amazon.com/dp/'' @ asin @ ''/ref=nosim?tag='' @ ?tag"
    by (simp add: create_associate_url_def py_str_def)
  have one: "count_sub asin (create_associate_url env (Some asin) associate_id) = 1"
    if "asin \<noteq> []" "list_all is_asin_char asin" "count_sub asin ?tag = 0"
    unfolding url using that by (rule count_asin_in_url)
  have two: "count_sub ?tag (create_associate_url env (Some asin) associate_id) = 1"
    if "c \<in> set ?tag" "c \<notin> set ''https://www.amazon.com/dp/''" "c \<notin> set asin"
       "c \<notin> set ''/ref=nosim?tag=''" for c
  proof -
    have "c \<notin> set (''https://www.amazon.com/dp/'' @ asin @ ''/ref=nosim?tag='')"
      using that(2-4) by (simp only: set_append Un_iff) blast
    with that(1) have "count_sub ?tag ((''https://www.amazon.com/dp/'' @ asin @ ''/ref=nosim?tag='') @ ?tag) = 1"
      by (rule count_tag_in_url)
    then show ?thesis unfolding url by (simp only: append_assoc)
  qed
  from url one two show ?thesis by blast
qed

theorem associate_url_occurrences_witness:
  "create_associate_url Map.empty (Some ''B08N5WRWNW'') None
     = ''https://www.amazon.com/dp/B08N5WRWNW/ref=nosim?tag=yourtrackingid''
   \<and> count_sub ''B08N5WRWNW'' ''yourtrackingid'' = 0
   \<and> count_sub ''B08N5WRWNW'' (create_associate_url Map.empty (Some ''B08N5WRWNW'') None) = 1
   \<and> count_sub ''yourtrackingid'' (create_associate_url Map.empty (Some ''B08N5WRWNW'') None) = 1"
proof -
  have tag: "associate_tag Map.empty None = ''yourtrackingid''"
    by (simp add: associate_tag_def)
  have shape: "list_all is_asin_char ''B08N5WRWNW''"
    by (simp add: is_asin_char_def)
  have none: "count_sub ''B08N5WRWNW'' ''yourtrackingid'' = 0"
    by simp
  have fresh: "\<exists>c \<in> set ''yourtrackingid''. c \<notin> set ''https://www.amazon.com/dp/''
      \<and> c \<notin> set ''B08N5WRWNW'' \<and> c \<notin> set ''/ref=nosim?tag=''"
    by simp
  show ?thesis
    using associate_url_occurrences [of Map.empty "''B08N5WRWNW''" None] shape none fresh
    by (simp add: tag)
qed

text \<open>
  The tag \<open>amazon\<close> occurs twice in the link: in the host name and as the tag.
\<close>

theorem associate_url_occurrences_counterexample:
  "count_sub ''amazon'' (create_associate_url Map.empty (Some ''B08N5WRWNW'') (Some ''amazon'')) = 2"
  by (simp add: create_associate_url_def associate_tag_def py_str_def)

section \<open>Identifier extractor: the search and the scan\<close>

lemma match_code_dp:
  "match_code ''/dp/'' s =
     (if take 4 s = ''/dp/'' \<and> length (take 10 (drop 4 s)) = 10
         \<and> list_all is_asin_char (take 10 (drop 4 s)) \<and> at_tail (drop 14 s)
      then Some (take 10 (drop 4 s)) else None)"
proof -
  have l: "length ''/dp/'' = 4" by simp
  show ?thesis unfolding match_code_def Let_def l by simp
qed

lemma match_code_slash:
  "match_code ''/'' s =
     (if take 1 s = ''/'' \<and> length (take 10 (drop 1 s)) = 10
         \<and> list_all is_asin_char (take 10 (drop 1 s)) \<and> at_tail (drop 11 s)
      then Some (take 10 (drop 1 s)) else None)"
proof -
  have l: "length ''/'' = 1" by simp
  show ?thesis unfolding match_code_def Let_def l by simp
qed

lemma re_search_here: "m s = Some g \<Longrightarrow> re_search m s = Some g"
  by (cases s) simp_all

lemma re_search_drop:
  assumes "\<forall>j<i. m (drop j url) = None" and "i \<le> length url"
  shows "re_search m url = re_search m (drop i url)"
  using assms
proof (induction url arbitrary: i)
  case Nil
  then show ?case by simp
next
  case (Cons c cs)
  show ?case
  proof (cases i)
    case 0
    then show ?thesis by simp
  next
    case (Suc k)
    have "m (drop 0 (c # cs)) = None"
      using Cons.prems(1) Suc by blast
    then have head: "m (c # cs) = None" by simp
    have "\<forall>j<k. m (drop j cs) = None"
    proof (intro allI impI)
      fix j assume "j < k"
      then have "m (drop (Suc j) (c # cs)) = None"
        using Cons.prems(1) Suc by blast
      then show "m (drop j cs) = None" by simp
    qed
    moreover have "k \<le> length cs" using Cons.prems(2) Suc by simp
    ultimately have "re_search m cs = re_search m (drop k cs)" by (rule Cons.IH)
    with head Suc show ?thesis by simp
  qed
qed

lemma re_search_none:
  assumes "\<forall>j<length url. m (drop j url) = None" and "m [] = None"
  shows "re_search m url = None"
proof -
  have "re_search m url = re_search m (drop (length url) url)"
    using assms(1) by (intro re_search_drop) simp_all
  with assms(2) show ?thesis by simp
qed

lemma match_dp_at:
  assumes "dp_code_at url i"
  shows "match_code ''/dp/'' (drop i url) = Some (take 10 (drop 4 (drop i url)))"
proof -
  have "at_tail (drop 14 (drop i url))"
    using assms by (cases "drop 14 (drop i url)") (auto simp: dp_code_at_def at_tail_def Let_def)
  with assms show ?thesis
    unfolding match_code_dp dp_code_at_def Let_def by simp
qed

lemma match_dp_earlier:
  assumes m: "match_code ''/dp/'' (drop j url) = Some c"
  shows "dp_code_at url j \<or> length url = j + 15"
proof -
  let ?s = "drop j url"
  from m have parts: "take 4 ?s = ''/dp/''" "length (take 10 (drop 4 ?s)) = 10"
      "list_all is_asin_char (take 10 (drop 4 ?s))" "at_tail (drop 14 ?s)"
    unfolding match_code_dp by (simp_all split: if_splits)
  show ?thesis
  proof (cases "drop 14 ?s")
    case Nil
    with parts show ?thesis unfolding dp_code_at_def Let_def by simp
  next
    case (Cons x xs)
    with parts(4) consider "x = CHR ''/'' \<or> x = CHR ''?''" | "xs = []"
      by (auto simp: at_tail_def)
    then show ?thesis
    proof cases
      case 1
      with parts Cons show ?thesis unfolding dp_code_at_def Let_def by auto
    next
      case 2
      with Cons have "length (drop 14 ?s) = 1" by simp
      then have "length url = j + 15" by simp
      then show ?thesis ..
    qed
  qed
qed

lemma match_dp_slash:
  assumes "match_code ''/dp/'' s = Some c"
  shows "match_code ''/'' (drop 3 s) = Some c"
proof -
  from assms have parts: "take 4 s = ''/dp/''" "length (take 10 (drop 4 s)) = 10"
      "list_all is_asin_char (take 10 (drop 4 s))" "at_tail (drop 14 s)"
      "c = take 10 (drop 4 s)"
    unfolding match_code_dp by (auto split: if_splits)
  have "s = take 4 s @ drop 4 s" by simp
  then have s: "s = ''/dp/'' @ drop 4 s" using parts(1) by simp
  have d3: "drop 3 s = CHR ''/'' # drop 4 s"
    by (subst s) simp
  have "drop 11 (drop 3 s) = drop 14 s" by simp
  with parts d3 show ?thesis unfolding match_code_slash by simp
qed

lemma scan_dp_Some:
  "scan_dp parts = Some q \<Longrightarrow> \<exists>k. Suc k < length parts \<and> parts ! Suc k = q \<and> length q = 10"
proof (induction parts rule: scan_dp.induct)
  case (1 part nxt rest)
  show ?case
  proof (cases "part = ''dp'' \<and> length nxt = 10")
    case True
    with "1.prems" have "q = nxt" by simp
    with True have "Suc 0 < length (part # nxt # rest) \<and> (part # nxt # rest) ! Suc 0 = q
        \<and> length q = 10" by simp
    then show ?thesis by blast
  next
    case False
    with "1.prems" have "scan_dp (nxt # rest) = Some q" by auto
    with "1.IH" False obtain k where "Suc k < length (nxt # rest)" "(nxt # rest) ! Suc k = q"
      "length q = 10" by blast
    then have "Suc (Suc k) < length (part # nxt # rest) \<and> (part # nxt # rest) ! Suc (Suc k) = q
        \<and> length q = 10" by simp
    then show ?thesis by blast
  qed
qed simp_all

lemma at_tail_iff:
  "at_tail rest
     = (rest = [] \<or> hd rest = CHR ''/'' \<or> hd rest = CHR ''?'' \<or> rest = [CHR 0x0A])"
  by (cases rest) (auto simp: at_tail_def)

lemma match_dp_iff: "(match_code ''/dp/'' (drop j url) \<noteq> None) = dp_match_at url j"
  unfolding match_code_dp dp_match_at_def Let_def at_tail_iff by simp

lemma match_slash_iff: "(match_code ''/'' (drop j url) \<noteq> None) = code10_at url j"
  unfolding match_code_slash code10_at_def Let_def at_tail_iff by simp

lemma first_dp_pair_scan:
  "first_dp_pair parts k \<Longrightarrow> scan_dp parts = Some (parts ! Suc k)"
proof (induction parts arbitrary: k rule: scan_dp.induct)
  case (1 part nxt rest)
  from "1.prems" have len: "Suc k < length (part # nxt # rest)"
    and first: "\<forall>j<k. \<not> ((part # nxt # rest) ! j = ''dp''
                  \<and> length ((part # nxt # rest) ! Suc j) = 10)"
    and here: "(part # nxt # rest) ! k = ''dp''" "length ((part # nxt # rest) ! Suc k) = 10"
    by (simp_all add: first_dp_pair_def list_all_iff)
  show ?case
  proof (cases "part = ''dp'' \<and> length nxt = 10")
    case True
    have "k = 0"
    proof (rule ccontr)
      assume "k \<noteq> 0"
      then have "0 < k" by simp
      with first have "\<not> ((part # nxt # rest) ! 0 = ''dp''
          \<and> length ((part # nxt # rest) ! Suc 0) = 10)" by blast
      with True show False by simp
    qed
    with True show ?thesis by simp
  next
    case False
    with here have "k \<noteq> 0" by (cases k) auto
    then obtain k' where k: "k = Suc k'" by (cases k) auto
    have "\<forall>j<k'. \<not> ((nxt # rest) ! j = ''dp'' \<and> length ((nxt # rest) ! Suc j) = 10)"
    proof (intro allI impI)
      fix j assume "j < k'"
      then have "Suc j < k" using k by simp
      with first have "\<not> ((part # nxt # rest) ! Suc j = ''dp''
          \<and> length ((part # nxt # rest) ! Suc (Suc j)) = 10)" by blast
      then show "\<not> ((nxt # rest) ! j = ''dp'' \<and> length ((nxt # rest) ! Suc j) = 10)"
        by simp
    qed
    with len here k have "first_dp_pair (nxt # rest) k'"
      by (simp add: first_dp_pair_def list_all_iff)
    with "1.IH" False have "scan_dp (nxt # rest) = Some ((nxt # rest) ! Suc k')" by blast
    moreover from False have "scan_dp (part # nxt # rest) = scan_dp (nxt # rest)" by auto
    ultimately show ?thesis using k by simp
  qed
qed (simp_all add: first_dp_pair_def)

lemma extract_asin_leftmost:
  assumes here: "dp_code_at url i" and first: "\<forall>j<i. \<not> dp_code_at url j"
  shows "extract_asin url = Inr (Some (take 10 (drop (i + 4) url)))"
proof -
  have t4: "take 4 (drop i url) = ''/dp/''"
    and l10: "length (take 10 (drop 4 (drop i url))) = 10"
    using here unfolding dp_code_at_def Let_def by simp_all
  have len: "i + 14 \<le> length url" using l10 by simp
  have slash_i: "url ! i = CHR ''/''"
  proof -
    have "take 4 (drop i url) ! 0 = CHR ''/''" by (simp add: t4)
    then show ?thesis using len by simp
  qed
  have none: "\<forall>j<i. match_code ''/dp/'' (drop j url) = None"
  proof (intro allI impI)
    fix j assume j: "j < i"
    show "match_code ''/dp/'' (drop j url) = None"
    proof (rule ccontr)
      assume "match_code ''/dp/'' (drop j url) \<noteq> None"
      then obtain c where c: "match_code ''/dp/'' (drop j url) = Some c" by auto
      then have "dp_code_at url j \<or> length url = j + 15" by (rule match_dp_earlier)
      with first j have l: "length url = j + 15" by blast
      with len j have i: "i = Suc j" by simp
      from c have "take 4 (drop j url) = ''/dp/''"
        unfolding match_code_dp by (simp split: if_splits)
      then have "take 4 (drop j url) ! 1 = CHR ''d''" by simp
      then have "url ! Suc j = CHR ''d''" using l by simp
      with slash_i i show False by simp
    qed
  qed
  have "re_search (match_code ''/dp/'') url = re_search (match_code ''/dp/'') (drop i url)"
    using none len by (intro re_search_drop) simp_all
  also have "\<dots> = Some (take 10 (drop 4 (drop i url)))"
    using here by (intro re_search_here match_dp_at)
  finally show ?thesis by (simp add: extract_asin_def add.commute)
qed

section \<open>Identifier extractor: the \<open>/dp/\<close> pattern\<close>

text \<open>
  Claim C2, as the code has it.  Let a URL have \<open>/dp/\<close> followed by exactly ten
  alphanumeric characters and then a slash, a question mark or its end.  \<open>extract_asin\<close>
  returns these ten characters when the place takes precedence.  If they are capitals and
  digits, this is so when the place is the leftmost of its kind in the URL.  If the URL has
  no place with ten capitals and digits (nor one that a final line feed ends), it is so
  when, in the path that \<open>urlparse\<close> gives, the place is the first segment \<open>dp\<close> followed
  by a segment of exactly ten characters; small letters are taken there, as are other
  characters.
\<close>

theorem extract_asin_dp_code:
  "(dp_code_at url i \<and> (\<forall>j<i. \<not> dp_code_at url j)
      \<longrightarrow> extract_asin url = Inr (Some (take 10 (drop (i + 4) url))))
   \<and> ((\<forall>j<length url. \<not> dp_match_at url j) \<and> first_dp_pair (path_segments url) k
      \<longrightarrow> extract_asin url = Inr (Some (path_segments url ! Suc k)))"
proof (intro conjI impI)
  assume "dp_code_at url i \<and> (\<forall>j<i. \<not> dp_code_at url j)"
  then show "extract_asin url = Inr (Some (take 10 (drop (i + 4) url)))"
    using extract_asin_leftmost by blast
next
  assume a: "(\<forall>j<length url. \<not> dp_match_at url j) \<and> first_dp_pair (path_segments url) k"
  then have "\<forall>j<length url. match_code ''/dp/'' (drop j url) = None"
    using match_dp_iff by blast
  then have r1: "re_search (match_code ''/dp/'') url = None"
    by (intro re_search_none) (simp_all add: match_code_dp)
  from a have "path_segments url \<noteq> []" by (auto simp: first_dp_pair_def)
  then obtain path where p: "urlparse_path url = Inr path"
    by (cases "urlparse_path url") (simp_all add: path_segments_def)
  then have seg: "path_segments url = split_on CHR ''/'' path" by (simp add: path_segments_def)
  from a have "scan_dp (split_on CHR ''/'' path) = Some (path_segments url ! Suc k)"
    unfolding seg by (intro first_dp_pair_scan) simp
  then show "extract_asin url = Inr (Some (path_segments url ! Suc k))"
    by (simp add: extract_asin_def r1 p)
qed

theorem extract_asin_dp_code_witness:
  "dp_code_at ''https://www.amazon.com/dp/B08N5WRWNW/ref=sr_1_1?keywords=kettle'' 22
   \<and> extract_asin ''https://www.amazon.com/dp/B08N5WRWNW/ref=sr_1_1?keywords=kettle''
       = Inr (Some ''B08N5WRWNW'')
   \<and> path_segments ''https://www.amazon.com/dp/b08n5wrwnw'' = [[], ''dp'', ''b08n5wrwnw'']
   \<and> first_dp_pair (path_segments ''https://www.amazon.com/dp/b08n5wrwnw'') 1
   \<and> extract_asin ''https://www.amazon.com/dp/b08n5wrwnw'' = Inr (Some ''b08n5wrwnw'')"
proof -
  have a: "dp_code_at ''https://www.amazon.com/dp/B08N5WRWNW/ref=sr_1_1?keywords=kettle'' 22"
    by code_simp
  have b: "\<forall>j<22. \<not> dp_code_at ''https://www.amazon.com/dp/B08N5WRWNW/ref=sr_1_1?keywords=kettle'' j"
    by code_simp
  have "\<forall>j<36. \<not> dp_match_at ''https://www.amazon.com/dp/b08n5wrwnw'' j"
    by (simp add: dp_match_at_def is_asin_char_def All_less_Suc numeral_eq_Suc)
  then have c: "\<forall>j<length ''https://www.amazon.com/dp/b08n5wrwnw''.
      \<not> dp_match_at ''https://www.amazon.com/dp/b08n5wrwnw'' j"
    by simp
  have d: "path_segments ''https://www.amazon.com/dp/b08n5wrwnw'' = [[], ''dp'', ''b08n5wrwnw'']"
    by code_simp
  have e: "first_dp_pair (path_segments ''https://www.amazon.com/dp/b08n5wrwnw'') 1"
    unfolding d by code_simp
  show ?thesis
    using extract_asin_dp_code [of "''https://www.amazon.com/dp/B08N5WRWNW/ref=sr_1_1?keywords=kettle''"
        22 0]
      extract_asin_dp_code [of "''https://www.amazon.com/dp/b08n5wrwnw''" 0 1]
      a b c d e
    by simp
qed

text \<open>
  Four URLs that have \<open>/dp/\<close>, ten alphanumeric characters and then a slash or the end, and
  for which \<open>extract_asin\<close> does not return these ten characters: an earlier pair of segments
  of the path goes first; a later code of capitals and digits goes first; of two codes of
  capitals and digits the left one is returned, not the right one; a code of small letters
  in the query is not found at all.
\<close>

theorem extract_asin_precedence_counterexample:
  "''https://www.amazon.com/dp/abc-efghij/dp/b08n5wrwnw''
     = ''https://www.amazon.com/dp/abc-efghij'' @ ''/dp/'' @ ''b08n5wrwnw'' @ []
   \<and> extract_asin ''https://www.amazon.com/dp/abc-efghij/dp/b08n5wrwnw''
       = Inr (Some ''abc-efghij'')
   \<and> ''https://www.amazon.com/dp/b08n5wrwnw/dp/B08N5WRWNW''
     = ''https://www.amazon.com'' @ ''/dp/'' @ ''b08n5wrwnw'' @ ''/dp/B08N5WRWNW''
   \<and> extract_asin ''https://www.amazon.com/dp/b08n5wrwnw/dp/B08N5WRWNW''
       = Inr (Some ''B08N5WRWNW'')
   \<and> dp_code_at ''https://www.amazon.com/dp/B08N5WRWNW/dp/B000000001'' 36
   \<and> extract_asin ''https://www.amazon.com/dp/B08N5WRWNW/dp/B000000001''
       = Inr (Some ''B08N5WRWNW'')
   \<and> ''https://www.amazon.com/s?k=/dp/b08n5wrwnw''
     = ''https://www.amazon.com/s?k='' @ ''/dp/'' @ ''b08n5wrwnw'' @ []
   \<and> extract_asin ''https://www.amazon.com/s?k=/dp/b08n5wrwnw'' = Inr None"
  by code_simp

section \<open>Identifier extractor: URLs without a ten-character segment\<close>

text \<open>
  Claim C3, as the code has it.  Take a URL whose path, as \<open>urlparse\<close> gives it, has no
  segment of exactly ten characters, and in which nowhere, the host and the query included,
  a slash is followed by exactly ten characters of \<open>[A-Z0-9]\<close> and then by a slash, a
  question mark, the end or a line feed that ends the URL.  Then \<open>extract_asin\<close> returns
  \<open>None\<close>, unless \<open>urlparse\<close> rejects the URL: its \<open>ValueError\<close> is passed on to the
  caller.  So absence is not the only failure signal, and the path alone does not decide:
  the two patterns are searched in the whole URL.
\<close>

theorem extract_asin_no_segment:
  assumes noseg: "\<forall>seg \<in> set (path_segments url). length seg \<noteq> 10"
    and nocode: "\<forall>i<length url. \<not> code10_at url i"
  shows "extract_asin url = (case urlparse_path url of Inl e \<Rightarrow> Inl e | Inr path \<Rightarrow> Inr None)"
proof -
  have slash: "match_code ''/'' (drop j url) = None" for j
  proof (cases "j < length url")
    case True
    with nocode show ?thesis using match_slash_iff by blast
  next
    case False
    then show ?thesis by (simp add: match_code_slash)
  qed
  have dp: "match_code ''/dp/'' (drop j url) = None" for j
  proof (cases "match_code ''/dp/'' (drop j url)")
    case (Some c)
    then have "match_code ''/'' (drop 3 (drop j url)) = Some c" by (rule match_dp_slash)
    then have "match_code ''/'' (drop (3 + j) url) = Some c" by simp
    with slash [of "3 + j"] show ?thesis by simp
  qed simp
  have r1: "re_search (match_code ''/dp/'') url = None"
    using dp by (intro re_search_none) (simp_all add: match_code_dp)
  have r3: "re_search (match_code ''/'') url = None"
    using slash by (intro re_search_none) (simp_all add: match_code_slash)
  have scan: "scan_dp (split_on CHR ''/'' path) = None" if p: "urlparse_path url = Inr path" for path
  proof (cases "scan_dp (split_on CHR ''/'' path)")
    case (Some q)
    then obtain k where k: "Suc k < length (split_on CHR ''/'' path)"
        "split_on CHR ''/'' path ! Suc k = q" "length q = 10"
      using scan_dp_Some by blast
    then have "q \<in> set (split_on CHR ''/'' path)" using nth_mem by blast
    then have "q \<in> set (path_segments url)" by (simp add: path_segments_def p)
    with noseg k(3) show ?thesis by blast
  qed simp
  show ?thesis
    by (simp add: extract_asin_def r1 r3 scan split: sum.splits)
qed

theorem extract_asin_no_segment_witness:
  "path_segments ''https://amazon.com/gp/product/B08N5'' = [[], ''gp'', ''product'', ''B08N5'']
   \<and> extract_asin ''https://amazon.com/gp/product/B08N5'' = Inr None
   \<and> path_segments ''http://[/gp/product/B08N5'' = []
   \<and> extract_asin ''http://[/gp/product/B08N5'' = Inl ValueError"
proof -
  have a: "path_segments ''https://amazon.com/gp/product/B08N5''
      = [[], ''gp'', ''product'', ''B08N5'']"
    by code_simp
  have b: "\<forall>seg \<in> set (path_segments ''https://amazon.com/gp/product/B08N5''). length seg \<noteq> 10"
    unfolding a by simp
  have "\<forall>i<35. \<not> code10_at ''https://amazon.com/gp/product/B08N5'' i"
    by (simp add: code10_at_def is_asin_char_def All_less_Suc numeral_eq_Suc)
  then have c: "\<forall>i<length ''https://amazon.com/gp/product/B08N5''.
      \<not> code10_at ''https://amazon.com/gp/product/B08N5'' i"
    by simp
  have d: "urlparse_path ''https://amazon.com/gp/product/B08N5'' = Inr ''/gp/product/B08N5''"
    by code_simp
  have e: "urlparse_path ''http://[/gp/product/B08N5'' = Inl ValueError"
    by code_simp
  have f: "path_segments ''http://[/gp/product/B08N5'' = []"
    by (simp add: path_segments_def e)
  have g: "\<forall>seg \<in> set (path_segments ''http://[/gp/product/B08N5''). length seg \<noteq> 10"
    unfolding f by simp
  have "\<forall>i<25. \<not> code10_at ''http://[/gp/product/B08N5'' i"
    by (simp add: code10_at_def is_asin_char_def All_less_Suc numeral_eq_Suc)
  then have h: "\<forall>i<length ''http://[/gp/product/B08N5''.
      \<not> code10_at ''http://[/gp/product/B08N5'' i"
    by simp
  show ?thesis
    using extract_asin_no_segment [OF b c] extract_asin_no_segment [OF g h] a d e f
    by simp
qed

text \<open>
  The claim as the specification words it fails in two ways.  A URL can raise:
  \<open>http://[\<close> and \<open>http://[x]/\<close> have no segment of ten characters, and \<open>urlparse\<close>
  rejects them.  And a URL whose path has no segment of ten characters can still yield an
  identifier, taken from its host or from its query.
\<close>

theorem extract_asin_raises_counterexample:
  "path_segments ''http://['' = []
   \<and> extract_asin ''http://['' = Inl ValueError
   \<and> path_segments ''http://[x]/'' = []
   \<and> extract_asin ''http://[x]/'' = Inl ValueError
   \<and> path_segments ''http://ABCDEFGHIJ/'' = [[], []]
   \<and> extract_asin ''http://ABCDEFGHIJ/'' = Inr (Some ''ABCDEFGHIJ'')
   \<and> path_segments ''https://www.amazon.com/s?k=/B08N5WRWNW'' = [[], ''s'']
   \<and> extract_asin ''https://www.amazon.com/s?k=/B08N5WRWNW'' = Inr (Some ''B08N5WRWNW'')"
  by code_simp

section \<open>Monitor loop: notification on free shipping\<close>































text \<open>
  The condition on the interval cannot be dropped: \<open>time.sleep\<close> raises on a negative number
  of seconds and on one whose nanoseconds do not fit 64 bits, and that ends the loop in its
  first cycle.
\<close>

lemma monitor_products_sleep_raises:
  "fst (monitor_products 3 mixed_world [] None None None (- 1) []) = Some ValueError
   \<and> fst (monitor_products 3 mixed_world [] None None None 200000000 []) = Some OverflowError"
proof -
  have a: "format_int (- 1) = Inr (str_int (- 1))"
  proof -
    have "\<bar>- 1 :: int\<bar> < 10 ^ 10" by simp
    also have "(10::int) ^ 10 \<le> 10 ^ 4300" by (rule power_increasing) simp_all
    finally have "\<not> 10 ^ 4300 \<le> \<bar>- 1 :: int\<bar>" by (simp only: not_le)
    then show ?thesis unfolding format_int_def by (simp only: if_False)
  qed
  have b: "format_int 200000000 = Inr (str_int 200000000)"
  proof -
    have "\<bar>200000000 :: int\<bar> < 10 ^ 10" by simp
    also have "(10::int) ^ 10 \<le> 10 ^ 4300" by (rule power_increasing) simp_all
    finally have "\<not> 10 ^ 4300 \<le> \<bar>200000000 :: int\<bar>" by (simp only: not_le)
    then show ?thesis unfolding format_int_def by (simp only: if_False)
  qed
  have c: "time_sleep mixed_world (- 60) t = (Inl ValueError, t)" for t
    by (simp add: time_sleep_def)
  have d: "time_sleep mixed_world 12000000000 t = (Inl OverflowError, t)" for t
    by (simp add: time_sleep_def)
  have "monitor_cycle mixed_world [] None None None (- 1) [] = (Inl ValueError,
      [Print ([CHR 0x0A] @ ''Checking prices at '' @ now mixed_world []),
       Print ([CHR 0x0A] @ ''Sleeping for '' @ str_int (- 1) @ '' minutes...'')])"
    unfolding monitor_cycle_def Let_def a by (simp add: c)
  moreover have "monitor_cycle mixed_world [] None None None 200000000 [] = (Inl OverflowError,
      [Print ([CHR 0x0A] @ ''Checking prices at '' @ now mixed_world []),
       Print ([CHR 0x0A] @ ''Sleeping for '' @ str_int 200000000 @ '' minutes...'')])"
    unfolding monitor_cycle_def Let_def b by (simp add: d)
  ultimately show ?thesis by (simp add: numeral_3_eq_3)
qed

end
